theory Spec2Isabelle
  imports Main "HOL-Library.AList"
begin

section \<open>Python strings\<close>

text \<open>
  A Python \<open>str\<close> is a sequence of Unicode code points. A code point is a natural
  number here, so that the model counts what Python counts and covers every string,
  not only the ones that fit in bytes. \<open>lit\<close> turns a literal of the source into
  its code points.
\<close>

type_synonym codepoint = nat
type_synonym pystr = "codepoint list"

definition lit :: "string \<Rightarrow> pystr" where
  "lit s = map of_char s"

definition slash :: codepoint where
  "slash = of_char (CHR ''/'')"

section \<open>The path normalisation of \<open>NormalizePathMiddleware.dispatch\<close>\<close>

text \<open>
  \<^verbatim>\<open>normalized_path = re.sub(r'/+', '/', path)\<close>

  \<open>re.sub\<close> scans the string from the left. Where the pattern matches, the
  match is greedy (it takes the whole run of slashes), the replacement \<open>/\<close> is
  written and the scan goes on behind the match; where it does not, the character is
  copied and the scan moves one character on. The pattern never matches the empty
  string.
\<close>

function (domintros) normalize_path :: "pystr \<Rightarrow> pystr" where
  "normalize_path [] = []"
| "normalize_path (c # cs) =
     (if c = slash then slash # normalize_path (dropWhile (\<lambda>x. x = slash) cs)
      else c # normalize_path cs)"
  by pat_completeness auto
termination
  by (relation "measure length") (simp_all add: le_imp_less_Suc length_dropWhile_le)

text \<open>Two slashes side by side somewhere in a string, as a function that computes.\<close>

fun adjacent_slashes :: "pystr \<Rightarrow> bool" where
  "adjacent_slashes (a # b # cs) = ((a = slash \<and> b = slash) \<or> adjacent_slashes (b # cs))"
| "adjacent_slashes _ = False"

section \<open>Requests and the middleware\<close>

text \<open>
  The request type is the framework's. Of a request this code touches the ASGI scope, a
  dict of which it reads and writes the key \<open>path\<close> only, and the receive channel,
  which it hands on. \<open>other_keys\<close> stands for the rest of the scope.
\<close>

record 'a asgi_scope =
  path :: pystr
  other_keys :: 'a

record ('a, 'r) request =
  scope :: "'a asgi_scope"
  receive :: 'r

text \<open>
  Modelled from the spec: \<open>request.url.path\<close>, the framework's accessor, which is
  not part of this repository. The spec has it that this code reads only the \<open>path\<close>
  attribute of the incoming request's scope.
\<close>

definition url_path :: "('a, 'r) request \<Rightarrow> pystr" where
  "url_path request = path (scope request)"

text \<open>
  \<^verbatim>\<open>
  async def dispatch(self, request, call_next):
      path = request.url.path
      normalized_path = re.sub(r'/+', '/', path)
      if normalized_path != path:
          logger.info(f"Normalizing path: {path} -> {normalized_path}")
          scope = dict(request.scope)
          scope["path"] = normalized_path
          request = Request(scope, request.receive)
      response = await call_next(request)
      return response
  \<close>
  The downstream handler \<open>call_next\<close> is any function of the request and of the
  state \<open>w\<close> of everything behind the middleware; its result (a response, or
  whatever else it ends with) is handed back. \<open>logged\<close> holds the lines passed to
  \<open>logger.info\<close> so far.
\<close>

definition dispatch ::
  "('a, 'r) request \<Rightarrow> (('a, 'r) request \<Rightarrow> 'w \<Rightarrow> 'resp \<times> 'w) \<Rightarrow> pystr list \<Rightarrow> 'w
     \<Rightarrow> 'resp \<times> pystr list \<times> 'w" where
  "dispatch request call_next logged w =
     (let request_path = url_path request;
          normalized_path = normalize_path request_path
      in if normalized_path \<noteq> request_path then
           (let logged' = logged @
                  [lit ''Normalizing path: '' @ request_path @ lit '' -> '' @ normalized_path];
                scope' = (scope request)\<lparr>path := normalized_path\<rparr>;
                request' = \<lparr>scope = scope', receive = receive request\<rparr>;
                (response, w') = call_next request' w
            in (response, logged', w'))
         else
           (let (response, w') = call_next request w
            in (response, logged, w')))"

section \<open>Python values and built-ins used by \<open>custom_openapi\<close>\<close>

text \<open>
  The OpenAPI document is a JSON-like Python value. A dict is an association list:
  \<open>AList.update\<close> overwrites the value of a key where the key stands and adds a
  new key at the end, which is the order a Python dict keeps; \<open>map_of\<close> looks a
  key up. Numbers are the integers (no claim below depends on a number).
\<close>

datatype json =
    JNull
  | JBool bool
  | JNum int
  | JStr pystr
  | JList "json list"
  | JDict "(pystr \<times> json) list"

type_synonym dict = "(pystr \<times> json) list"

text \<open>
  The exceptions this code can end with: \<open>.setdefault\<close> on a value that is not a
  dict has no such attribute, and item assignment with a string key on a value that is
  not a dict is a type error.
\<close>

datatype pyerror = AttributeError | TypeError

text \<open>
  \<open>str.isspace\<close> of one character, as \<open>str.strip()\<close> without argument uses it: the
  ASCII controls 9 to 13 and 28 to 31, the space, U+0085, U+00A0, U+1680, U+2000 to
  U+200A, U+2028, U+2029, U+202F, U+205F and U+3000.
\<close>

definition isspace :: "codepoint \<Rightarrow> bool" where
  "isspace c \<longleftrightarrow>
     (9 \<le> c \<and> c \<le> 13) \<or> (28 \<le> c \<and> c \<le> 32) \<or> c = 133 \<or> c = 160 \<or> c = 5760 \<or>
     (8192 \<le> c \<and> c \<le> 8202) \<or> c = 8232 \<or> c = 8233 \<or> c = 8239 \<or> c = 8287 \<or> c = 12288"

definition strip :: "pystr \<Rightarrow> pystr" where
  "strip s = rev (dropWhile isspace (rev (dropWhile isspace s)))"

text \<open>\<open>s.rstrip(chars)\<close>: the characters of \<open>chars\<close> are removed from the end.\<close>

definition rstrip :: "pystr \<Rightarrow> pystr \<Rightarrow> pystr" where
  "rstrip s chars = rev (dropWhile (\<lambda>x. x \<in> set chars) (rev s))"

definition startswith :: "pystr \<Rightarrow> pystr \<Rightarrow> bool" where
  "startswith s p \<longleftrightarrow> take (length p) s = p"

text \<open>
  The process environment, a mapping from names to values kept like a dict, and
  \<open>os.getenv(key, default)\<close>.
\<close>

type_synonym environ = "(pystr \<times> pystr) list"

definition getenv :: "environ \<Rightarrow> pystr \<Rightarrow> pystr \<Rightarrow> pystr" where
  "getenv env key dflt = (case map_of env key of None \<Rightarrow> dflt | Some v \<Rightarrow> v)"

text \<open>
  \<open>d.setdefault(k, v)\<close> returns the value of \<open>k\<close>, after storing \<open>v\<close> under
  \<open>k\<close> when the key is absent. The value returned is the object the dict holds, so
  the model returns the dict as well and a later change of the value is written back
  into it.
\<close>

definition setdefault :: "dict \<Rightarrow> pystr \<Rightarrow> json \<Rightarrow> json \<times> dict" where
  "setdefault d k v =
     (case map_of d k of
        Some x \<Rightarrow> (x, d)
      | None \<Rightarrow> (v, AList.update k v d))"

section \<open>The application object and \<open>custom_openapi\<close>\<close>

text \<open>
  \<^verbatim>\<open>app = FastAPI(title=..., version=..., description=...)\<close>

  \<open>openapi_schema\<close> is the cache; the framework creates the application with
  \<open>None\<close> there. \<open>routes\<close> is the route table, of whatever type the framework
  keeps it in.
\<close>

record 'r fastapi =
  title :: pystr
  version :: pystr
  description :: pystr
  routes :: 'r
  openapi_schema :: "dict option"

definition app :: "'r \<Rightarrow> 'r fastapi" where
  "app rs =
     \<lparr>title = lit ''ACP-style Merchant API'',
      version = lit ''0.3.0'',
      description =
        lit ''ACP-like checkout API for GPT Actions demos. Public OpenAPI at /openapi.json'',
      routes = rs,
      openapi_schema = None\<rparr>"

text \<open>
  \<^verbatim>\<open>if app.openapi_schema:\<close> tests the truth value of the cache: \<open>None\<close> and
  the empty dict are false.
\<close>

definition truthy :: "dict option \<Rightarrow> bool" where
  "truthy c = (case c of None \<Rightarrow> False | Some d \<Rightarrow> d \<noteq> [])"

text \<open>
  Lines 62 to 92 of \<open>custom_openapi\<close>, the computation behind the cache test.
  \<open>get_openapi\<close> is the framework's generator, a parameter here: it returns a
  \<open>Dict[str, Any]\<close>. Whatever it returns under \<open>components\<close> is used as a dict
  by the code, and what is under \<open>securitySchemes\<close> there likewise; a value of
  another type raises, and then the cache is left as it was.
  \<^verbatim>\<open>
      schema = get_openapi(title=app.title, version=app.version,
                           description=app.description, routes=app.routes)
      base = os.getenv("PUBLIC_BASE_URL", "").strip()
      if base and base.startswith("https://"):
          base = base.rstrip('/')
          schema["servers"] = [{"url": base}]
      else:
          schema["servers"] = [{"url": "https://replace-me.example.com"}]
      components = schema.setdefault("components", {})
      security_schemes = components.setdefault("securitySchemes", {})
      security_schemes["ApiKeyAuth"] = {
          "type": "apiKey", "in": "header", "name": "X-API-Key",
          "description": "Provide your API key in the X-API-Key header."}
      schema["security"] = [{"ApiKeyAuth": []}]
      app.openapi_schema = schema
      return app.openapi_schema
  \<close>
\<close>

definition compute_openapi ::
  "(pystr \<Rightarrow> pystr \<Rightarrow> pystr \<Rightarrow> 'r \<Rightarrow> dict) \<Rightarrow> environ \<Rightarrow> 'r fastapi
     \<Rightarrow> (pyerror + dict) \<times> 'r fastapi" where
  "compute_openapi get_openapi env a =
     (let schema = get_openapi (title a) (version a) (description a) (routes a);
          base = strip (getenv env (lit ''PUBLIC_BASE_URL'') []);
          schema =
            (if base \<noteq> [] \<and> startswith base (lit ''https://'') then
               (let base = rstrip base (lit ''/'')
                in AList.update (lit ''servers'') (JList [JDict [(lit ''url'', JStr base)]]) schema)
             else
               AList.update (lit ''servers'')
                 (JList [JDict [(lit ''url'', JStr (lit ''https://replace-me.example.com''))]])
                 schema);
          (components, schema) = setdefault schema (lit ''components'') (JDict [])
      in case components of
           JDict cs \<Rightarrow>
             (let (security_schemes, cs) = setdefault cs (lit ''securitySchemes'') (JDict [])
              in case security_schemes of
                   JDict ss \<Rightarrow>
                     (let ss = AList.update (lit ''ApiKeyAuth'')
                                 (JDict
                                   [(lit ''type'', JStr (lit ''apiKey'')),
                                    (lit ''in'', JStr (lit ''header'')),
                                    (lit ''name'', JStr (lit ''X-API-Key'')),
                                    (lit ''description'',
                                     JStr (lit ''Provide your API key in the X-API-Key header.''))])
                                 ss;
                          cs = AList.update (lit ''securitySchemes'') (JDict ss) cs;
                          schema = AList.update (lit ''components'') (JDict cs) schema;
                          schema = AList.update (lit ''security'')
                                     (JList [JDict [(lit ''ApiKeyAuth'', JList [])]]) schema
                      in (Inr schema, a\<lparr>openapi_schema := Some schema\<rparr>))
                 | _ \<Rightarrow> (Inl TypeError, a))
         | _ \<Rightarrow> (Inl AttributeError, a))"

text \<open>
  \<^verbatim>\<open>
  def custom_openapi():
      if app.openapi_schema:
          return app.openapi_schema
      ...
  \<close>
\<close>

definition custom_openapi ::
  "(pystr \<Rightarrow> pystr \<Rightarrow> pystr \<Rightarrow> 'r \<Rightarrow> dict) \<Rightarrow> environ \<Rightarrow> 'r fastapi
     \<Rightarrow> (pyerror + dict) \<times> 'r fastapi" where
  "custom_openapi get_openapi env a =
     (case openapi_schema a of
        Some cached \<Rightarrow>
          (if cached \<noteq> [] then (Inr cached, a) else compute_openapi get_openapi env a)
      | None \<Rightarrow> compute_openapi get_openapi env a)"

text \<open>
  What the code needs of the generated document to run through: \<open>components\<close>,
  where present, is a dict, and \<open>securitySchemes\<close>, where present in it, is a dict.
  The framework's generator builds both as dicts.
\<close>

definition components_well_typed :: "dict \<Rightarrow> bool" where
  "components_well_typed d =
     (case map_of d (lit ''components'') of
        None \<Rightarrow> True
      | Some (JDict cs) \<Rightarrow>
          (case map_of cs (lit ''securitySchemes'') of
             None \<Rightarrow> True
           | Some (JDict ss) \<Rightarrow> True
           | Some _ \<Rightarrow> False)
      | Some _ \<Rightarrow> False)"

section \<open>Reading a document\<close>

text \<open>
  \<open>schema["servers"][0]["url"]\<close> and the like: a path of dict keys and list
  indices into a JSON value, \<open>None\<close> where the path leaves the value.
\<close>

datatype accessor = Key pystr | Index nat

fun get_path :: "json \<Rightarrow> accessor list \<Rightarrow> json option" where
  "get_path j [] = Some j"
| "get_path (JDict d) (Key k # p) =
     (case map_of d k of None \<Rightarrow> None | Some x \<Rightarrow> get_path x p)"
| "get_path (JList xs) (Index i # p) =
     (if i < length xs then get_path (xs ! i) p else None)"
| "get_path _ _ = None"

text \<open>
  The same on what a call of \<open>custom_openapi\<close> returned: \<open>None\<close> as well when
  the call raised.
\<close>

definition schema_get :: "pyerror + dict \<Rightarrow> accessor list \<Rightarrow> json option" where
  "schema_get r p = (case r of Inl e \<Rightarrow> None | Inr schema \<Rightarrow> get_path (JDict schema) p)"

text \<open>
  A document as the framework generates it for an application without routes, to run
  the code on.
\<close>

definition bare_openapi :: "pystr \<Rightarrow> pystr \<Rightarrow> pystr \<Rightarrow> 'r \<Rightarrow> dict" where
  "bare_openapi t v d rs =
     [(lit ''openapi'', JStr (lit ''3.1.0'')),
      (lit ''info'',
       JDict [(lit ''title'', JStr t), (lit ''version'', JStr v), (lit ''description'', JStr d)]),
      (lit ''paths'', JDict [])]"

section \<open>The health endpoint\<close>

text \<open>
  \<^verbatim>\<open>
  @app.get("/healthz")
  async def healthz():
      return {"status": "ok"}
  \<close>
\<close>

definition healthz :: json where
  "healthz = JDict [(lit ''status'', JStr (lit ''ok''))]"

record response =
  status_code :: nat
  body :: json

text \<open>
  Modelled from the spec: the framework's handling of \<open>GET /healthz\<close>, which is not
  part of this repository. The route is declared without a status code, and the spec has
  the answer as \<open>200\<close> with the handler's return value as the body. The handler
  takes no argument: the environment and the application state are here to say that it
  reads neither and leaves the state as it is.
\<close>

definition get_healthz :: "environ \<Rightarrow> 'r fastapi \<Rightarrow> response \<times> 'r fastapi" where
  "get_healthz env a = (\<lparr>status_code = 200, body = healthz\<rparr>, a)"

section \<open>Properties of the normalisation\<close>

lemma adjacent_slashes_Cons:
  "adjacent_slashes (a # s) = ((a = slash \<and> s \<noteq> [] \<and> hd s = slash) \<or> adjacent_slashes s)"
  by (cases s) auto

lemma dropWhile_slash_head:
  "dropWhile (\<lambda>x. x = slash) cs = [] \<or> hd (dropWhile (\<lambda>x. x = slash) cs) \<noteq> slash"
  using hd_dropWhile [of "\<lambda>x. x = slash" cs] by blast

lemma normalize_path_Nil_iff: "normalize_path s = [] \<longleftrightarrow> s = []"
  by (cases s) simp_all

lemma hd_normalize_path: "hd (normalize_path s) = hd s"
  by (cases s) simp_all

lemma normalize_path_no_adjacent: "\<not> adjacent_slashes (normalize_path s)"
proof (induction s rule: normalize_path.induct)
  case 1
  show ?case by simp
next
  case (2 c cs)
  show ?case
  proof (cases "c = slash")
    case True
    let ?d = "dropWhile (\<lambda>x. x = slash) cs"
    have ih: "\<not> adjacent_slashes (normalize_path ?d)"
      using 2 True by simp
    have "normalize_path ?d = [] \<or> hd (normalize_path ?d) \<noteq> slash"
      using dropWhile_slash_head [of cs]
      by (simp add: normalize_path_Nil_iff hd_normalize_path)
    with ih True show ?thesis
      by (auto simp: adjacent_slashes_Cons)
  next
    case False
    with 2 show ?thesis
      by (simp add: adjacent_slashes_Cons)
  qed
qed

lemma normalize_path_fixed: "\<not> adjacent_slashes s \<Longrightarrow> normalize_path s = s"
proof (induction s rule: normalize_path.induct)
  case 1
  show ?case by simp
next
  case (2 c cs)
  show ?case
  proof (cases "c = slash")
    case True
    from "2.prems" True have hd: "cs = [] \<or> hd cs \<noteq> slash" and rest: "\<not> adjacent_slashes cs"
      by (auto simp: adjacent_slashes_Cons)
    from hd have same: "dropWhile (\<lambda>x. x = slash) cs = cs"
      by (cases cs) auto
    from "2.IH"(1) [OF True] rest same have "normalize_path cs = cs"
      by simp
    with True same show ?thesis by simp
  next
    case False
    with 2 show ?thesis
      by (simp add: adjacent_slashes_Cons)
  qed
qed

lemma adjacent_slashes_append: "adjacent_slashes (xs @ slash # slash # ys)"
  by (induction xs rule: adjacent_slashes.induct) auto

lemma adjacent_slashes_split:
  "adjacent_slashes s \<Longrightarrow> \<exists>xs ys. s = xs @ [slash, slash] @ ys"
proof (induction s rule: adjacent_slashes.induct)
  case (1 a b cs)
  show ?case
  proof (cases "a = slash \<and> b = slash")
    case True
    then have "a # b # cs = [] @ [slash, slash] @ cs" by simp
    then show ?thesis by blast
  next
    case False
    with 1 obtain xs ys where "b # cs = xs @ [slash, slash] @ ys"
      by auto
    then have "a # b # cs = (a # xs) @ [slash, slash] @ ys" by simp
    then show ?thesis by blast
  qed
qed simp_all

lemma adjacent_slashes_iff:
  "adjacent_slashes s \<longleftrightarrow> (\<exists>xs ys. s = xs @ [slash, slash] @ ys)"
  using adjacent_slashes_split adjacent_slashes_append by auto

lemma normalize_path_terminates: "normalize_path_dom s"
proof (induction s rule: normalize_path.induct)
  case 1
  show ?case by (rule normalize_path.domintros)
next
  case (2 c cs)
  then show ?case by (auto intro: normalize_path.domintros)
qed

lemma length_normalize_path: "length (normalize_path s) \<le> length s"
proof (induction s rule: normalize_path.induct)
  case 1
  show ?case by simp
next
  case (2 c cs)
  have "length (dropWhile (\<lambda>x. x = slash) cs) \<le> length cs"
    by (rule length_dropWhile_le)
  with 2 show ?case by (cases "c = slash") auto
qed

text \<open>
  C1. Normalising is idempotent: normalising a normalised path changes nothing, for
  every path.
\<close>

theorem normalize_path_idempotent:
  "normalize_path (normalize_path P) = normalize_path P"
  by (rule normalize_path_fixed) (rule normalize_path_no_adjacent)

text \<open>
  C2. A normalised path has no two slashes side by side: it cannot be cut into a
  front, the two-character string \<open>//\<close> and a rest.
\<close>

theorem normalize_path_no_double_slash:
  "\<nexists>xs ys. normalize_path P = xs @ [slash, slash] @ ys"
  using normalize_path_no_adjacent [of P] by (simp add: adjacent_slashes_iff)

text \<open>
  C9. The normalisation is total: the scan ends on every path (every path is in the
  domain on which the recursion is well founded), there is no error among its results,
  and the string it produces is no longer than the path.
\<close>

theorem normalize_path_total:
  "normalize_path_dom P \<and> length (normalize_path P) \<le> length P"
  by (simp add: normalize_path_terminates length_normalize_path)

text \<open>
  C8. The middleware hands back what the downstream handler returns, unmodified. When
  normalising changes the path, the handler receives a request that differs from the
  incoming one in the path of its scope only (the path is the normalised one, the other
  keys and the receive channel are the incoming ones), and one line is logged; when it
  does not, the handler receives the incoming request itself and nothing is logged.
\<close>

theorem dispatch_forwards:
  "(normalize_path (path (scope request)) = path (scope request) \<longrightarrow>
      dispatch request call_next logged w =
        (case call_next request w of (response, w') \<Rightarrow> (response, logged, w')))
   \<and> (normalize_path (path (scope request)) \<noteq> path (scope request) \<longrightarrow>
      dispatch request call_next logged w =
        (case call_next
                (request\<lparr>scope := (scope request)\<lparr>path := normalize_path (path (scope request))\<rparr>\<rparr>) w
         of (response, w') \<Rightarrow>
           (response,
            logged @ [lit ''Normalizing path: '' @ path (scope request) @ lit '' -> '' @
                       normalize_path (path (scope request))],
            w')))"
  by (cases request) (simp add: dispatch_def url_path_def Let_def)

theorem dispatch_forwards_witness:
  "dispatch \<lparr>scope = \<lparr>path = lit ''//products///123'', other_keys = ()\<rparr>, receive = ()\<rparr>
      (\<lambda>r w. (r, Suc w)) [] (0::nat)
     = (\<lparr>scope = \<lparr>path = lit ''/products/123'', other_keys = ()\<rparr>, receive = ()\<rparr>,
        [lit ''Normalizing path: //products///123 -> /products/123''], 1)
   \<and> dispatch \<lparr>scope = \<lparr>path = lit ''/healthz'', other_keys = ()\<rparr>, receive = ()\<rparr>
      (\<lambda>r w. (r, Suc w)) [] (0::nat)
     = (\<lparr>scope = \<lparr>path = lit ''/healthz'', other_keys = ()\<rparr>, receive = ()\<rparr>, [], 1)"
  using
    dispatch_forwards [of "\<lparr>scope = \<lparr>path = lit ''//products///123'', other_keys = ()\<rparr>, receive = ()\<rparr>"
      "\<lambda>r w. (r, Suc w)" "[]" "0::nat"]
    dispatch_forwards [of "\<lparr>scope = \<lparr>path = lit ''/healthz'', other_keys = ()\<rparr>, receive = ()\<rparr>"
      "\<lambda>r w. (r, Suc w)" "[]" "0::nat"]
  by (simp add: lit_def slash_def)


section \<open>Properties of \<open>custom_openapi\<close>\<close>

lemma keys_distinct:
  "lit ''servers'' \<noteq> lit ''components''" "lit ''components'' \<noteq> lit ''servers''"
  "lit ''servers'' \<noteq> lit ''security''" "lit ''security'' \<noteq> lit ''servers''"
  "lit ''components'' \<noteq> lit ''security''" "lit ''security'' \<noteq> lit ''components''"
  by (simp_all add: lit_def)

lemma components_cases:
  assumes "components_well_typed g"
  obtains (absent) "map_of g (lit ''components'') = None"
  | (no_schemes) cs where "map_of g (lit ''components'') = Some (JDict cs)"
      "map_of cs (lit ''securitySchemes'') = None"
  | (schemes) cs ss where "map_of g (lit ''components'') = Some (JDict cs)"
      "map_of cs (lit ''securitySchemes'') = Some (JDict ss)"
proof (cases "map_of g (lit ''components'')")
  case None
  then show ?thesis by (rule absent)
next
  case (Some c)
  with assms obtain cs where c: "c = JDict cs"
    by (cases c) (simp_all add: components_well_typed_def)
  show ?thesis
  proof (cases "map_of cs (lit ''securitySchemes'')")
    case None
    with Some c show ?thesis by (simp add: no_schemes)
  next
    case (Some s)
    with assms \<open>map_of g (lit ''components'') = Some c\<close> c obtain ss where "s = JDict ss"
      by (cases s) (simp_all add: components_well_typed_def)
    with Some c \<open>map_of g (lit ''components'') = Some c\<close> show ?thesis by (simp add: schemes)
  qed
qed

lemma compute_openapi_ok:
  assumes "components_well_typed (get_openapi (title a) (version a) (description a) (routes a))"
  shows "\<exists>schema cs ss.
           compute_openapi get_openapi env a = (Inr schema, a\<lparr>openapi_schema := Some schema\<rparr>)
         \<and> schema \<noteq> []
         \<and> map_of schema (lit ''servers'') =
             Some (JList [JDict [(lit ''url'',
               JStr (if strip (getenv env (lit ''PUBLIC_BASE_URL'') []) \<noteq> [] \<and>
                        startswith (strip (getenv env (lit ''PUBLIC_BASE_URL'') [])) (lit ''https://'')
                     then rstrip (strip (getenv env (lit ''PUBLIC_BASE_URL'') [])) (lit ''/'')
                     else lit ''https://replace-me.example.com''))]])
         \<and> map_of schema (lit ''components'') = Some (JDict cs)
         \<and> map_of cs (lit ''securitySchemes'') = Some (JDict ss)
         \<and> map_of ss (lit ''ApiKeyAuth'') =
             Some (JDict
                    [(lit ''type'', JStr (lit ''apiKey'')),
                     (lit ''in'', JStr (lit ''header'')),
                     (lit ''name'', JStr (lit ''X-API-Key'')),
                     (lit ''description'',
                      JStr (lit ''Provide your API key in the X-API-Key header.''))])
         \<and> map_of schema (lit ''security'') = Some (JList [JDict [(lit ''ApiKeyAuth'', JList [])]])"
  using assms
proof (cases rule: components_cases)
  case absent
  then show ?thesis
    by (simp add: compute_openapi_def Let_def setdefault_def update_conv' keys_distinct)
next
  case (no_schemes cs)
  then show ?thesis
    by (simp add: compute_openapi_def Let_def setdefault_def update_conv' keys_distinct)
next
  case (schemes cs ss)
  then show ?thesis
    by (simp add: compute_openapi_def Let_def setdefault_def update_conv' keys_distinct)
qed

lemma compute_openapi_result:
  assumes "compute_openapi get_openapi env a = (Inr schema, a')"
  shows "schema \<noteq> [] \<and> a' = a\<lparr>openapi_schema := Some schema\<rparr>"
  using assms unfolding compute_openapi_def Let_def
  by (auto split: prod.splits json.splits)

lemma strip_keeps_prefix:
  assumes "p \<noteq> []" "\<not> isspace (hd p)" "\<not> isspace (last p)" "startswith s p"
  shows "startswith (strip s) p"
proof -
  from assms(4) have "s = p @ drop (length p) s"
    unfolding startswith_def by (metis append_take_drop_id)
  then obtain r where s: "s = p @ r" ..
  from assms(1,2) have front: "dropWhile isspace (p @ r) = p @ r"
    by (cases p) simp_all
  from assms(1,3) have rear: "dropWhile isspace (rev p) = rev p"
    by (simp add: dropWhile_eq_self_iff hd_rev)
  have "\<exists>r'. rev (dropWhile isspace (rev r @ rev p)) = p @ r'"
    by (cases "\<forall>x\<in>set (rev r). isspace x") (simp_all add: dropWhile_append rear)
  then show ?thesis
    by (auto simp: strip_def s front startswith_def)
qed

lemma startswith_https_strip:
  "startswith v (lit ''https://'') \<Longrightarrow> startswith (strip v) (lit ''https://'')"
  by (rule strip_keeps_prefix) (simp_all add: lit_def isspace_def)

lemma startswith_nonempty: "startswith s p \<Longrightarrow> p \<noteq> [] \<Longrightarrow> s \<noteq> []"
  by (auto simp: startswith_def)

lemma https_nonempty: "lit ''https://'' \<noteq> []"
  by (simp add: lit_def)

lemma bare_scheme_strip: "strip (lit ''https://'' @ replicate n slash) = lit ''https://'' @ replicate n slash"
  by (cases n) (simp_all add: strip_def lit_def slash_def isspace_def dropWhile_eq_self_iff hd_append hd_rev)

lemma bare_scheme_startswith: "startswith (lit ''https://'' @ replicate n slash) (lit ''https://'')"
  by (simp add: startswith_def)

lemma bare_scheme_rstrip: "rstrip (lit ''https://'' @ replicate n slash) (lit ''/'') = lit ''https:''"
  by (simp add: rstrip_def lit_def slash_def dropWhile_append)

lemma custom_openapi_fresh:
  "\<not> truthy (openapi_schema a) \<Longrightarrow> custom_openapi g env a = compute_openapi g env a"
  by (simp add: custom_openapi_def truthy_def split: option.splits)

lemma custom_openapi_cached:
  "schema \<noteq> [] \<Longrightarrow> openapi_schema a = Some schema \<Longrightarrow> custom_openapi g env a = (Inr schema, a)"
  by (simp add: custom_openapi_def)

lemma custom_openapi_server:
  assumes "\<not> truthy (openapi_schema a)"
    and "components_well_typed (get_openapi (title a) (version a) (description a) (routes a))"
  shows "(\<exists>schema. custom_openapi get_openapi env a = (Inr schema, a\<lparr>openapi_schema := Some schema\<rparr>))
       \<and> schema_get (fst (custom_openapi get_openapi env a))
           [Key (lit ''servers''), Index 0, Key (lit ''url'')] =
         Some (JStr (if strip (getenv env (lit ''PUBLIC_BASE_URL'') []) \<noteq> [] \<and>
                        startswith (strip (getenv env (lit ''PUBLIC_BASE_URL'') [])) (lit ''https://'')
                     then rstrip (strip (getenv env (lit ''PUBLIC_BASE_URL'') [])) (lit ''/'')
                     else lit ''https://replace-me.example.com''))"
proof -
  from compute_openapi_ok [of get_openapi a env, OF assms(2)] obtain schema where
    "compute_openapi get_openapi env a = (Inr schema, a\<lparr>openapi_schema := Some schema\<rparr>)"
    "map_of schema (lit ''servers'') =
       Some (JList [JDict [(lit ''url'',
         JStr (if strip (getenv env (lit ''PUBLIC_BASE_URL'') []) \<noteq> [] \<and>
                  startswith (strip (getenv env (lit ''PUBLIC_BASE_URL'') [])) (lit ''https://'')
               then rstrip (strip (getenv env (lit ''PUBLIC_BASE_URL'') [])) (lit ''/'')
               else lit ''https://replace-me.example.com''))]])"
    by blast
  then show ?thesis
    by (simp add: custom_openapi_fresh [OF assms(1)] schema_get_def)
qed

lemma custom_openapi_components:
  assumes "\<not> truthy (openapi_schema a)"
    and "components_well_typed (get_openapi (title a) (version a) (description a) (routes a))"
  shows "schema_get (fst (custom_openapi get_openapi env a))
           [Key (lit ''components''), Key (lit ''securitySchemes''), Key (lit ''ApiKeyAuth'')] =
         Some (JDict
                [(lit ''type'', JStr (lit ''apiKey'')),
                 (lit ''in'', JStr (lit ''header'')),
                 (lit ''name'', JStr (lit ''X-API-Key'')),
                 (lit ''description'',
                  JStr (lit ''Provide your API key in the X-API-Key header.''))])
       \<and> schema_get (fst (custom_openapi get_openapi env a)) [Key (lit ''security'')] =
         Some (JList [JDict [(lit ''ApiKeyAuth'', JList [])]])"
proof -
  from compute_openapi_ok [of get_openapi a env, OF assms(2)] obtain schema cs ss where
    "compute_openapi get_openapi env a = (Inr schema, a\<lparr>openapi_schema := Some schema\<rparr>)"
    "map_of schema (lit ''components'') = Some (JDict cs)"
    "map_of cs (lit ''securitySchemes'') = Some (JDict ss)"
    "map_of ss (lit ''ApiKeyAuth'') =
       Some (JDict
              [(lit ''type'', JStr (lit ''apiKey'')),
               (lit ''in'', JStr (lit ''header'')),
               (lit ''name'', JStr (lit ''X-API-Key'')),
               (lit ''description'',
                JStr (lit ''Provide your API key in the X-API-Key header.''))])"
    "map_of schema (lit ''security'') = Some (JList [JDict [(lit ''ApiKeyAuth'', JList [])]])"
    by blast
  then show ?thesis
    by (simp add: custom_openapi_fresh [OF assms(1)] schema_get_def)
qed

lemmas run_defs =
  custom_openapi_def compute_openapi_def setdefault_def getenv_def app_def bare_openapi_def
  schema_get_def components_well_typed_def truthy_def strip_def rstrip_def startswith_def
  isspace_def lit_def slash_def Let_def

text \<open>
  Both exceptions are reachable when the generated document is not typed as the code
  expects, and the cache is then left as it was.
\<close>

lemma custom_openapi_components_not_dict:
  "custom_openapi (\<lambda>t v d rs. [(lit ''components'', JList [])]) [] (app ()) =
     (Inl AttributeError, app ())"
  by (simp add: run_defs)

lemma custom_openapi_schemes_not_dict:
  "custom_openapi (\<lambda>t v d rs. [(lit ''components'', JDict [(lit ''securitySchemes'', JNull)])])
     [] (app ()) = (Inl TypeError, app ())"
  by (simp add: run_defs)

text \<open>
  C3. On a first computation (nothing usable in the cache) over a generated document
  whose components are dicts: when \<open>PUBLIC_BASE_URL\<close> is non-empty and starts with
  \<open>https://\<close>, \<open>servers[0].url\<close> is that value with the whitespace around it
  removed and then the slashes at its end removed. For \<open>https://api.example.com/\<close>
  this is \<open>https://api.example.com\<close>.
\<close>

theorem custom_openapi_https_server:
  assumes "\<not> truthy (openapi_schema a)"
    and "components_well_typed (get_openapi (title a) (version a) (description a) (routes a))"
    and "map_of env (lit ''PUBLIC_BASE_URL'') = Some v"
    and "v \<noteq> []"
    and "startswith v (lit ''https://'')"
  shows "schema_get (fst (custom_openapi get_openapi env a))
           [Key (lit ''servers''), Index 0, Key (lit ''url'')] =
         Some (JStr (rstrip (strip v) (lit ''/'')))"
proof -
  have "startswith (strip v) (lit ''https://'')"
    using assms(5) by (rule startswith_https_strip)
  moreover from this have "strip v \<noteq> []"
    by (rule startswith_nonempty) (rule https_nonempty)
  ultimately show ?thesis
    using custom_openapi_server [of a get_openapi env, OF assms(1,2)] assms(3)
    by (simp add: getenv_def)
qed

theorem custom_openapi_https_server_witness:
  "startswith (lit ''https://api.example.com/'') (lit ''https://'')
   \<and> schema_get
       (fst (custom_openapi bare_openapi
              [(lit ''PUBLIC_BASE_URL'', lit ''https://api.example.com/'')] (app ())))
       [Key (lit ''servers''), Index 0, Key (lit ''url'')] =
     Some (JStr (lit ''https://api.example.com''))"
  using custom_openapi_https_server [of "app ()" bare_openapi
      "[(lit ''PUBLIC_BASE_URL'', lit ''https://api.example.com/'')]"
      "lit ''https://api.example.com/''"]
  by (simp add: app_def bare_openapi_def components_well_typed_def truthy_def strip_def
      rstrip_def startswith_def isspace_def lit_def)

text \<open>
  The whitespace matters: the code calls \<open>.strip()\<close> before anything else. With a
  blank behind the final slash, the value with only its final slashes removed is the
  value itself, and the document has \<open>https://api.example.com\<close>.
\<close>

theorem custom_openapi_https_server_counterexample:
  "\<not> truthy (openapi_schema (app ()))
   \<and> lit ''https://api.example.com/ '' \<noteq> []
   \<and> startswith (lit ''https://api.example.com/ '') (lit ''https://'')
   \<and> schema_get
       (fst (custom_openapi bare_openapi
              [(lit ''PUBLIC_BASE_URL'', lit ''https://api.example.com/ '')] (app ())))
       [Key (lit ''servers''), Index 0, Key (lit ''url'')] =
     Some (JStr (lit ''https://api.example.com''))
   \<and> rstrip (lit ''https://api.example.com/ '') (lit ''/'') = lit ''https://api.example.com/ ''
   \<and> lit ''https://api.example.com'' \<noteq> lit ''https://api.example.com/ ''"
  by (simp add: run_defs)

text \<open>
  C4. On a first computation over a generated document whose components are dicts:
  when \<open>PUBLIC_BASE_URL\<close> is unset, or its value with the whitespace around it
  removed is empty or does not start with \<open>https://\<close>, the call returns a document
  (no exception), caches it, and \<open>servers[0].url\<close> is the placeholder
  \<open>https://replace-me.example.com\<close>.
\<close>

theorem custom_openapi_placeholder_server:
  assumes "\<not> truthy (openapi_schema a)"
    and "components_well_typed (get_openapi (title a) (version a) (description a) (routes a))"
    and "case map_of env (lit ''PUBLIC_BASE_URL'') of
           None \<Rightarrow> True
         | Some v \<Rightarrow> strip v = [] \<or> \<not> startswith (strip v) (lit ''https://'')"
  shows "(\<exists>schema. custom_openapi get_openapi env a =
                     (Inr schema, a\<lparr>openapi_schema := Some schema\<rparr>))
       \<and> schema_get (fst (custom_openapi get_openapi env a))
           [Key (lit ''servers''), Index 0, Key (lit ''url'')] =
         Some (JStr (lit ''https://replace-me.example.com''))"
proof -
  have "strip (getenv env (lit ''PUBLIC_BASE_URL'') []) = [] \<or>
        \<not> startswith (strip (getenv env (lit ''PUBLIC_BASE_URL'') [])) (lit ''https://'')"
    using assms(3) by (simp add: getenv_def strip_def split: option.splits)
  then show ?thesis
    using custom_openapi_server [of a get_openapi env, OF assms(1,2)] by auto
qed

theorem custom_openapi_placeholder_server_witness:
  "schema_get (fst (custom_openapi bare_openapi [] (app ())))
       [Key (lit ''servers''), Index 0, Key (lit ''url'')] =
     Some (JStr (lit ''https://replace-me.example.com''))
   \<and> \<not> startswith (lit ''http://insecure.example.com'') (lit ''https://'')
   \<and> schema_get
       (fst (custom_openapi bare_openapi
              [(lit ''PUBLIC_BASE_URL'', lit ''http://insecure.example.com'')] (app ())))
       [Key (lit ''servers''), Index 0, Key (lit ''url'')] =
     Some (JStr (lit ''https://replace-me.example.com''))"
  using
    custom_openapi_placeholder_server [of "app ()" bare_openapi "[]"]
    custom_openapi_placeholder_server [of "app ()" bare_openapi
      "[(lit ''PUBLIC_BASE_URL'', lit ''http://insecure.example.com'')]"]
  by (simp add: app_def bare_openapi_def components_well_typed_def truthy_def strip_def
      startswith_def isspace_def lit_def)

text \<open>
  Again the test is made on the stripped value: a value with a blank in front does not
  start with \<open>https://\<close>, and is taken all the same.
\<close>

theorem custom_openapi_placeholder_server_counterexample:
  "\<not> truthy (openapi_schema (app ()))
   \<and> \<not> startswith (lit '' https://api.example.com'') (lit ''https://'')
   \<and> schema_get
       (fst (custom_openapi bare_openapi
              [(lit ''PUBLIC_BASE_URL'', lit '' https://api.example.com'')] (app ())))
       [Key (lit ''servers''), Index 0, Key (lit ''url'')] =
     Some (JStr (lit ''https://api.example.com''))
   \<and> lit ''https://api.example.com'' \<noteq> lit ''https://replace-me.example.com''"
  by (simp add: run_defs)

text \<open>
  C5. Memoisation. A call that returns a document leaves exactly that document, a
  non-empty dict, in the cache \<open>app.openapi_schema\<close>. Every later call, whatever the
  environment and whatever the generator would produce by then, returns that same
  document and leaves the application, its cache included, as it is. The state after
  the later call is the state before it, so this holds for each call that follows.
\<close>

theorem custom_openapi_memoized:
  assumes "custom_openapi get_openapi env a = (Inr schema, a')"
  shows "openapi_schema a' = Some schema
       \<and> schema \<noteq> []
       \<and> custom_openapi get_openapi' env' a' = (Inr schema, a')"
proof -
  have cache: "openapi_schema a' = Some schema \<and> schema \<noteq> []"
  proof (cases "truthy (openapi_schema a)")
    case True
    then obtain cached where c: "openapi_schema a = Some cached" "cached \<noteq> []"
      by (auto simp: truthy_def split: option.splits)
    with assms have "schema = cached" "a' = a"
      by (simp_all add: custom_openapi_def)
    with c show ?thesis by simp
  next
    case False
    with assms have "compute_openapi get_openapi env a = (Inr schema, a')"
      by (simp add: custom_openapi_fresh)
    then have "schema \<noteq> []" "a' = a\<lparr>openapi_schema := Some schema\<rparr>"
      by (simp_all add: compute_openapi_result)
    then show ?thesis by simp
  qed
  then have "custom_openapi get_openapi' env' a' = (Inr schema, a')"
    by (simp add: custom_openapi_cached)
  with cache show ?thesis by simp
qed

theorem custom_openapi_memoized_witness:
  "openapi_schema (app ()) = None
   \<and> \<not> isl (fst (custom_openapi bare_openapi [] (app ())))
   \<and> openapi_schema (snd (custom_openapi bare_openapi [] (app ()))) =
       Some (projr (fst (custom_openapi bare_openapi [] (app ()))))
   \<and> projr (fst (custom_openapi bare_openapi [] (app ()))) \<noteq> []
   \<and> custom_openapi (\<lambda>t v d rs. [])
       [(lit ''PUBLIC_BASE_URL'', lit ''https://api.example.com/'')]
       (snd (custom_openapi bare_openapi [] (app ()))) =
     custom_openapi bare_openapi [] (app ())"
proof -
  have "\<exists>schema a'. custom_openapi bare_openapi [] (app ()) = (Inr schema, a')"
    by (simp add: run_defs)
  then obtain schema a' where first: "custom_openapi bare_openapi [] (app ()) = (Inr schema, a')"
    by blast
  from custom_openapi_memoized [OF first]
  have "openapi_schema a' = Some schema \<and> schema \<noteq> []
        \<and> custom_openapi (\<lambda>t v d rs. [])
            [(lit ''PUBLIC_BASE_URL'', lit ''https://api.example.com/'')] a' = (Inr schema, a')" .
  with first show ?thesis by (simp add: app_def)
qed

text \<open>
  C6. On a first computation over a generated document whose components are dicts, for
  every environment: \<open>components.securitySchemes.ApiKeyAuth\<close> is the API key scheme
  (type \<open>apiKey\<close>, in \<open>header\<close>, name \<open>X-API-Key\<close>, with its description),
  and the top-level \<open>security\<close> is the list of the one requirement
  \<open>{"ApiKeyAuth": []}\<close>.
\<close>

theorem custom_openapi_security_scheme:
  assumes "\<not> truthy (openapi_schema a)"
    and "components_well_typed (get_openapi (title a) (version a) (description a) (routes a))"
  shows "schema_get (fst (custom_openapi get_openapi env a))
           [Key (lit ''components''), Key (lit ''securitySchemes''), Key (lit ''ApiKeyAuth'')] =
         Some (JDict
                [(lit ''type'', JStr (lit ''apiKey'')),
                 (lit ''in'', JStr (lit ''header'')),
                 (lit ''name'', JStr (lit ''X-API-Key'')),
                 (lit ''description'',
                  JStr (lit ''Provide your API key in the X-API-Key header.''))])
       \<and> schema_get (fst (custom_openapi get_openapi env a)) [Key (lit ''security'')] =
         Some (JList [JDict [(lit ''ApiKeyAuth'', JList [])]])"
  using assms by (rule custom_openapi_components)

theorem custom_openapi_security_scheme_witness:
  "schema_get
     (fst (custom_openapi bare_openapi
            [(lit ''PUBLIC_BASE_URL'', lit ''https://api.example.com/'')] (app ())))
     [Key (lit ''components''), Key (lit ''securitySchemes''), Key (lit ''ApiKeyAuth'')] =
   Some (JDict
          [(lit ''type'', JStr (lit ''apiKey'')),
           (lit ''in'', JStr (lit ''header'')),
           (lit ''name'', JStr (lit ''X-API-Key'')),
           (lit ''description'',
            JStr (lit ''Provide your API key in the X-API-Key header.''))])
   \<and> schema_get
     (fst (custom_openapi bare_openapi
            [(lit ''PUBLIC_BASE_URL'', lit ''https://api.example.com/'')] (app ())))
     [Key (lit ''security'')] =
   Some (JList [JDict [(lit ''ApiKeyAuth'', JList [])]])"
  using custom_openapi_security_scheme [of "app ()" bare_openapi
      "[(lit ''PUBLIC_BASE_URL'', lit ''https://api.example.com/'')]"]
  by (simp add: app_def bare_openapi_def components_well_typed_def truthy_def lit_def)

text \<open>
  C10. On a first computation over a generated document whose components are dicts:
  when \<open>PUBLIC_BASE_URL\<close> is \<open>https://\<close>, alone or followed by slashes only,
  \<open>servers[0].url\<close> is \<open>https:\<close>, which is neither the configured value nor
  the placeholder.
\<close>

theorem custom_openapi_bare_scheme:
  assumes "\<not> truthy (openapi_schema a)"
    and "components_well_typed (get_openapi (title a) (version a) (description a) (routes a))"
    and "map_of env (lit ''PUBLIC_BASE_URL'') = Some (lit ''https://'' @ replicate n slash)"
  shows "schema_get (fst (custom_openapi get_openapi env a))
           [Key (lit ''servers''), Index 0, Key (lit ''url'')] =
         Some (JStr (lit ''https:''))
       \<and> lit ''https:'' \<noteq> lit ''https://'' @ replicate n slash
       \<and> lit ''https:'' \<noteq> lit ''https://replace-me.example.com''"
proof -
  have "getenv env (lit ''PUBLIC_BASE_URL'') [] = lit ''https://'' @ replicate n slash"
    using assms(3) by (simp add: getenv_def)
  then have "schema_get (fst (custom_openapi get_openapi env a))
           [Key (lit ''servers''), Index 0, Key (lit ''url'')] =
         Some (JStr (lit ''https:''))"
    using custom_openapi_server [of a get_openapi env, OF assms(1,2)]
    by (simp add: bare_scheme_strip bare_scheme_startswith bare_scheme_rstrip https_nonempty)
  moreover have "lit ''https:'' \<noteq> lit ''https://'' @ replicate n slash"
    by (simp add: lit_def)
  moreover have "lit ''https:'' \<noteq> lit ''https://replace-me.example.com''"
    by (simp add: lit_def)
  ultimately show ?thesis by simp
qed

theorem custom_openapi_bare_scheme_witness:
  "schema_get
     (fst (custom_openapi bare_openapi [(lit ''PUBLIC_BASE_URL'', lit ''https://'')] (app ())))
     [Key (lit ''servers''), Index 0, Key (lit ''url'')] =
   Some (JStr (lit ''https:''))
   \<and> schema_get
     (fst (custom_openapi bare_openapi [(lit ''PUBLIC_BASE_URL'', lit ''https:////'')] (app ())))
     [Key (lit ''servers''), Index 0, Key (lit ''url'')] =
   Some (JStr (lit ''https:''))"
  using
    custom_openapi_bare_scheme [of "app ()" bare_openapi "[(lit ''PUBLIC_BASE_URL'', lit ''https://'')]" 0]
    custom_openapi_bare_scheme [of "app ()" bare_openapi "[(lit ''PUBLIC_BASE_URL'', lit ''https:////'')]" "Suc (Suc 0)"]
  by (simp add: app_def bare_openapi_def components_well_typed_def truthy_def lit_def slash_def)

section \<open>The health endpoint answers\<close>

text \<open>
  C7. \<open>GET /healthz\<close> answers with status 200 and the body
  \<open>{"status": "ok"}\<close>, in every environment and every state of the application,
  which it leaves as it is.
\<close>

theorem get_healthz_ok:
  "get_healthz env a =
     (\<lparr>status_code = 200, body = JDict [(lit ''status'', JStr (lit ''ok''))]\<rparr>, a)"
  by (simp add: get_healthz_def healthz_def)

end
